theory Spec2Isabelle
  imports Main "HOL-Library.Word"
begin

section \<open>The environment of \<^verbatim>\<open>examples/client.py\<close>\<close>

text \<open>
  The script reads local files and talks to one HTTP server. Both are outside the
  script, so they are parameters of the model: a file system that says what is found
  at a path, and a server that can or cannot be connected to and that answers a
  request body with a response or with a transport failure.
\<close>

type_synonym byte = "8 word"

text \<open>
  The errors the file operations raise, all of them \<^verbatim>\<open>OSError\<close>s (\<^verbatim>\<open>IOError\<close> is
  Python's other name for \<^verbatim>\<open>OSError\<close>), and the errors a run of the script ends with:
  the HTTP library's \<^verbatim>\<open>ClientConnectorError\<close> and \<^verbatim>\<open>ClientOSError\<close>, a failure of the
  exchange after the request was sent, and the failed \<^verbatim>\<open>assert\<close>.
\<close>

datatype os_error = FileNotFoundError | PermissionError | IsADirectoryError | IOError

datatype error =
  ClientConnectorError | ClientOSError os_error | TransportError | AssertionError

text \<open>
  A file is its byte sequence. \<open>read_fault = Some k\<close> describes a device on which
  \<open>k\<close> reads succeed and the next one faults; \<open>None\<close> is a healthy file.
\<close>

record local_file =
  content :: "byte list"
  read_fault :: "nat option"

text \<open>
  What is found at a path: nothing, a regular file that can be read, a file the
  process has no permission to read, or a directory.
\<close>

datatype node = Regular local_file | Unreadable | Directory

type_synonym filesystem = "string \<rightharpoonup> node"

text \<open>
  The object bound to \<^verbatim>\<open>f\<close> by \<^verbatim>\<open>async with aiofiles.open(file_name, 'rb') as f\<close>:
  the bytes of the file, the read position owned by the handle, the reads left
  before a fault, and whether the handle has been closed.
\<close>

record handle =
  data :: "byte list"
  pos :: nat
  fault_in :: "nat option"
  closed :: bool

text \<open>
  \<^verbatim>\<open>aiofiles.open(file_name, 'rb')\<close> raises what the built-in \<^verbatim>\<open>open\<close> raises:
  \<^verbatim>\<open>FileNotFoundError\<close> for a path with nothing at it, \<^verbatim>\<open>PermissionError\<close> for a file
  that may not be read, \<^verbatim>\<open>IsADirectoryError\<close> for a directory.
\<close>

definition aiofiles_open :: "filesystem \<Rightarrow> string \<Rightarrow> os_error + handle" where
  "aiofiles_open fs file_name =
     (case fs file_name of
        None \<Rightarrow> Inl FileNotFoundError
      | Some Unreadable \<Rightarrow> Inl PermissionError
      | Some Directory \<Rightarrow> Inl IsADirectoryError
      | Some (Regular fl) \<Rightarrow>
          Inr \<lparr>data = content fl, pos = 0, fault_in = read_fault fl, closed = False\<rparr>)"

text \<open>
  \<^verbatim>\<open>await f.read(n)\<close> on a file opened in mode \<^verbatim>\<open>'rb'\<close>: the next \<open>n\<close> bytes from the
  current position, fewer only when the file ends first, and the empty byte string
  at the end of the file. The position advances by the number of bytes returned.
\<close>

definition read :: "nat \<Rightarrow> handle \<Rightarrow> os_error + (byte list \<times> handle)" where
  "read n f =
     (if fault_in f = Some 0 then Inl IOError
      else (let chunk = take n (drop (pos f) (data f))
            in Inr (chunk, f\<lparr>pos := pos f + length chunk,
                             fault_in := map_option (\<lambda>k. k - 1) (fault_in f)\<rparr>)))"

text \<open>Leaving the \<^verbatim>\<open>async with\<close> block, on whatever path, closes the handle.\<close>

definition aexit :: "handle \<Rightarrow> handle" where
  "aexit f = f\<lparr>closed := True\<rparr>"

section \<open>The Chunked File Reader: \<^verbatim>\<open>file_sender\<close>\<close>

text \<open>
  \<^verbatim>\<open>file_sender\<close> is an asynchronous generator. Calling it runs none of its body;
  the body runs from one suspension point to the next each time the consumer
  asks for the next chunk. The generator is therefore a state machine:
  \<^item> \<open>Created file_name\<close>: the body has not started; no handle exists;
  \<^item> \<open>Suspended f\<close>: the body is suspended at \<^verbatim>\<open>yield chunk\<close>, inside the
    \<^verbatim>\<open>async with\<close> block, holding the handle \<open>f\<close>;
  \<^item> \<open>Finished fo\<close>: the body has been left; \<open>fo\<close> is the handle it had
    opened, if it got that far.
\<close>

datatype gen = Created string | Suspended handle | Finished "handle option"

datatype step = Yield "byte list" | StopAsyncIteration | Raise os_error

definition file_sender :: "string \<Rightarrow> gen" where
  "file_sender file_name = Created file_name"

text \<open>
  What follows each \<^verbatim>\<open>chunk = await f.read(64*1024)\<close> (lines 15 and 18): the test
  \<^verbatim>\<open>while chunk\<close>. A read error and the end of the loop both leave the
  \<^verbatim>\<open>async with\<close> block; a non-empty chunk is yielded.
\<close>

definition after_read :: "handle \<Rightarrow> os_error + (byte list \<times> handle) \<Rightarrow> step \<times> gen" where
  "after_read f r =
     (case r of
        Inl e \<Rightarrow> (Raise e, Finished (Some (aexit f)))
      | Inr (chunk, f') \<Rightarrow>
          (if chunk \<noteq> [] then (Yield chunk, Suspended f')
           else (StopAsyncIteration, Finished (Some (aexit f')))))"

fun anext :: "filesystem \<Rightarrow> gen \<Rightarrow> step \<times> gen" where
  "anext fs (Created file_name) =
     (case aiofiles_open fs file_name of
        Inl e \<Rightarrow> (Raise e, Finished None)
      | Inr f \<Rightarrow> after_read f (read (64 * 1024) f))"
| "anext fs (Suspended f) = after_read f (read (64 * 1024) f)"
| "anext fs (Finished fo) = (StopAsyncIteration, Finished fo)"




text \<open>Bytes not yet delivered: the measure that makes iteration terminate.\<close>

fun pending :: "filesystem \<Rightarrow> gen \<Rightarrow> nat" where
  "pending fs (Created file_name) =
     (case fs file_name of Some (Regular fl) \<Rightarrow> Suc (length (content fl)) | _ \<Rightarrow> 0)"
| "pending fs (Suspended f) = length (data f) - pos f"
| "pending fs (Finished fo) = 0"

text \<open>
  Iterating the generator until it ends (\<^verbatim>\<open>async for chunk in file_sender(...)\<close>):
  the chunks delivered in order, how the iteration ended (\<open>None\<close> at end of
  stream, \<open>Some e\<close> when \<open>e\<close> was raised), and the generator left behind.
\<close>

function drain :: "filesystem \<Rightarrow> gen \<Rightarrow> byte list list \<times> os_error option \<times> gen" where
  "drain fs g =
     (case anext fs g of
        (Yield c, g') \<Rightarrow> (case drain fs g' of (cs, r, gf) \<Rightarrow> (c # cs, r, gf))
      | (StopAsyncIteration, g') \<Rightarrow> ([], None, g')
      | (Raise e, g') \<Rightarrow> ([], Some e, g'))"
  by pat_completeness auto
termination
proof (relation "measure (\<lambda>(fs, g). pending fs g)")
  show "wf (measure (\<lambda>(fs, g). pending fs g))"
    by simp
next
  fix fs :: filesystem and g g' :: gen and s :: step and c :: "byte list"
  assume "(s, g') = anext fs g" and "s = Yield c"
  then have "anext fs g = (Yield c, g')"
    by simp
  then have "pending fs g' < pending fs g"
    by (cases g)
       (auto simp: aiofiles_open_def after_read_def read_def Let_def
             split: option.splits node.splits if_splits sum.splits)
  then show "((fs, g'), (fs, g)) \<in> measure (\<lambda>(fs, g). pending fs g)"
    by simp
qed



text \<open>The bytes between the read position of a handle and the end of its file.\<close>

definition rest :: "handle \<Rightarrow> byte list" where
  "rest f = drop (pos f) (data f)"

section \<open>The Multipart Upload Client: \<^verbatim>\<open>req\<close>\<close>

definition file_name :: string where
  "file_name = ''test.png''"

definition url :: string where
  "url = ''http://localhost:8080/upload''"

text \<open>
  The value handed to \<^verbatim>\<open>add_field\<close> is either an asynchronous generator (a file
  field) or a string (a text field).
\<close>

datatype field_value = Stream gen | Text string

record field =
  name :: string
  filename :: "string option"
  source :: field_value

record FormData =
  quote_fields :: bool
  field_list :: "field list"

text \<open>
  Modelled from the spec: \<^verbatim>\<open>aiohttp.FormData\<close> and its \<^verbatim>\<open>add_field\<close> belong to the
  HTTP library the script imports and are not part of the repository. The spec gives
  the request an ordered sequence of fields and a quoting flag; adding a field puts
  it at the end of the sequence.
\<close>

definition new_FormData :: "bool \<Rightarrow> FormData" where
  "new_FormData q = \<lparr>quote_fields = q, field_list = []\<rparr>"

text \<open>
  Modelled from the spec: \<^verbatim>\<open>add_field(name, value, filename=...)\<close> appends one field to
  the sequence; it looks at no field added earlier.
\<close>

definition add_field :: "FormData \<Rightarrow> string \<Rightarrow> field_value \<Rightarrow> string option \<Rightarrow> FormData" where
  "add_field d n v fn = d\<lparr>field_list := field_list d @ [\<lparr>name = n, filename = fn, source = v\<rparr>]\<rparr>"

text \<open>Lines 23 to 29 of \<^verbatim>\<open>req\<close>: the form, built by six calls in this order.\<close>

definition req_data :: FormData where
  "req_data =
     (let data = new_FormData False;
          data = add_field data ''files[]'' (Stream (file_sender file_name)) (Some ''image1.png'');
          data = add_field data ''files[]'' (Stream (file_sender file_name)) (Some ''image2.png'');
          data = add_field data ''files[]'' (Stream (file_sender file_name)) (Some ''image3.png'');
          data = add_field data ''Hey'' (Text ''hi'') None;
          data = add_field data ''Hi[One]'' (Text ''1'') None;
          data = add_field data ''Hi[Two]'' (Text ''2.0'') None
      in data)"

text \<open>
  Modelled from the spec: the encoded body is produced by the HTTP library, which is
  not part of the repository. The spec describes it as named parts, each with its own
  header section. One part is the parameters of its \<^verbatim>\<open>Content-Disposition\<close> section
  and its payload, as the sequence of chunks written. How the parameters are quoted
  in the header text is left to the library and is not modelled.
\<close>

record part =
  disposition_name :: string
  disposition_filename :: "string option"
  payload :: "byte list list"

definition encode_text :: "string \<Rightarrow> byte list" where
  "encode_text s = map of_char s"

text \<open>
  Modelled from the spec: the body encoder of the HTTP library (operation
  \<^verbatim>\<open>build_body\<close> of the spec) is not part of the repository. Following the spec, a
  file field is drained through its Chunked File Reader and written chunk by chunk,
  a text field is encoded and written directly, and the body is the parts of the
  fields in sequence. An error raised by a reader ends the encoding.
\<close>

definition encode_part :: "filesystem \<Rightarrow> field \<Rightarrow> os_error + part" where
  "encode_part fs fld =
     (case source fld of
        Text s \<Rightarrow>
          Inr \<lparr>disposition_name = name fld, disposition_filename = filename fld,
               payload = [encode_text s]\<rparr>
      | Stream g \<Rightarrow>
          (case drain fs g of
             (chunks, None, gf) \<Rightarrow>
               Inr \<lparr>disposition_name = name fld, disposition_filename = filename fld,
                    payload = chunks\<rparr>
           | (chunks, Some e, gf) \<Rightarrow> Inl e))"

text \<open>
  Modelled from the spec: the body is the parts of the fields, one per field, in the
  order of the field sequence; the first error of a reader ends the encoding.
\<close>

fun build_body :: "filesystem \<Rightarrow> field list \<Rightarrow> os_error + part list" where
  "build_body fs [] = Inr []"
| "build_body fs (fld # flds) =
     (case encode_part fs fld of
        Inl e \<Rightarrow> Inl e
      | Inr p \<Rightarrow>
          (case build_body fs flds of
             Inl e \<Rightarrow> Inl e
           | Inr ps \<Rightarrow> Inr (p # ps)))"

record response =
  status :: int
  body_text :: string

text \<open>
  The server, as the script sees it: a connection to a URL can be established or
  not, and to the request sent to a URL the server answers with a response, or the
  exchange fails in the transport.
\<close>

record server =
  connects :: "string \<Rightarrow> bool"
  respond :: "string \<Rightarrow> part list \<Rightarrow> error + response"

text \<open>Line 34, \<^verbatim>\<open>assert 201 == resp.status\<close>, with the expected status as a parameter.\<close>

definition validate :: "response \<Rightarrow> int \<Rightarrow> error + unit" where
  "validate resp expected_status =
     (if expected_status = status resp then Inr () else Inl AssertionError)"

text \<open>
  What a run of \<^verbatim>\<open>req\<close> does that can be seen from outside, in order: the
  connection it has established and on which it has begun the request, the request
  body it has sent in full, the line it has printed, the assertion it has evaluated.
\<close>

datatype event = Connected string | Posted string "part list" | Printed string | Asserted bool

record run =
  trace :: "event list"
  outcome :: "error + unit"

text \<open>
  Modelled from the spec: \<^verbatim>\<open>session.post(url, data=data)\<close> belongs to the HTTP
  library and is not part of the repository. The spec gives a request the states
  Connecting, Sending (the body is streamed) and AwaitingResponse, each with its
  failure. So the request first connects; when no connection can be established it
  fails with \<^verbatim>\<open>ClientConnectorError\<close> and no generator of the form is ever started, so
  no file is opened. On the connection it begins the request and then writes the
  body, which is when the file fields are drained; an \<^verbatim>\<open>OSError\<close> raised by a
  generator while the body is written is handed to the caller as the library's
  \<^verbatim>\<open>ClientOSError\<close>. After the body the server answers, or the exchange fails.
\<close>

definition post ::
  "filesystem \<Rightarrow> server \<Rightarrow> string \<Rightarrow> FormData \<Rightarrow> event list \<times> (error + response)" where
  "post fs srv u d =
     (if \<not> connects srv u then ([], Inl ClientConnectorError)
      else
        (case build_body fs (field_list d) of
           Inl e \<Rightarrow> ([Connected u], Inl (ClientOSError e))
         | Inr b \<Rightarrow> ([Connected u, Posted u b], respond srv u b)))"

text \<open>
  Lines 31 to 34: the request is posted, the text of the response is read and
  printed, and the status is asserted. Nothing in \<^verbatim>\<open>req\<close> catches an exception, so
  the first error ends the run.
\<close>

definition req :: "filesystem \<Rightarrow> server \<Rightarrow> run" where
  "req fs srv =
     (case post fs srv url req_data of
        (sent, Inl e) \<Rightarrow> \<lparr>trace = sent, outcome = Inl e\<rparr>
      | (sent, Inr resp) \<Rightarrow>
          \<lparr>trace = sent @ [Printed (body_text resp), Asserted (201 = status resp)],
           outcome = validate resp 201\<rparr>)"

text \<open>The request a form stands for, whatever fields were added to it.\<close>

fun add_fields :: "FormData \<Rightarrow> (string \<times> field_value \<times> string option) list \<Rightarrow> FormData" where
  "add_fields d [] = d"
| "add_fields d ((n, v, fn) # xs) = add_fields (add_field d n v fn) xs"

definition disposition :: "part \<Rightarrow> string \<times> string option" where
  "disposition p = (disposition_name p, disposition_filename p)"

section \<open>Properties of the Chunked File Reader\<close>

declare drain.simps [simp del]

lemma anext_Yield_nonempty:
  "anext fs g = (Yield c, g') \<Longrightarrow> c \<noteq> []"
  by (cases g) (auto simp: after_read_def split: sum.splits if_splits)

lemma anext_Yield_Suspended:
  "anext fs g = (Yield c, g') \<Longrightarrow> \<exists>f. g' = Suspended f"
  by (cases g) (auto simp: after_read_def split: sum.splits if_splits)

lemma drain_Yield:
  "anext fs g = (Yield c, g') \<Longrightarrow>
   drain fs g = (case drain fs g' of (cs, r, gf) \<Rightarrow> (c # cs, r, gf))"
  by (subst drain.simps) simp

lemma drain_Stop:
  "anext fs g = (StopAsyncIteration, g') \<Longrightarrow> drain fs g = ([], None, g')"
  by (subst drain.simps) simp

lemma drain_Raise:
  "anext fs g = (Raise e, g') \<Longrightarrow> drain fs g = ([], Some e, g')"
  by (subst drain.simps) simp

lemma drain_chunks_nonempty:
  "drain fs g = (cs, r, gf) \<Longrightarrow> \<forall>c \<in> set cs. c \<noteq> []"
proof (induction fs g arbitrary: cs r gf rule: drain.induct)
  case (1 fs g)
  obtain s g' where a: "anext fs g = (s, g')"
    by (cases "anext fs g") auto
  show ?case
  proof (cases s)
    case (Yield c)
    obtain cs' r' gf' where d: "drain fs g' = (cs', r', gf')"
      by (cases "drain fs g'") auto
    from a Yield d "1.prems" have cs: "cs = c # cs'"
      by (simp add: drain_Yield)
    from a Yield have "c \<noteq> []"
      by (auto dest: anext_Yield_nonempty)
    moreover have "\<forall>c \<in> set cs'. c \<noteq> []"
      using "1.IH" [OF a [symmetric] Yield d] .
    ultimately show ?thesis
      by (simp add: cs)
  next
    case StopAsyncIteration
    with a "1.prems" show ?thesis
      by (simp add: drain_Stop)
  next
    case (Raise e)
    with a "1.prems" show ?thesis
      by (simp add: drain_Raise)
  qed
qed

lemma read_healthy:
  "fault_in f = None \<Longrightarrow>
   read n f = Inr (take n (rest f), f\<lparr>pos := pos f + length (take n (rest f)), fault_in := None\<rparr>)"
  by (simp add: read_def rest_def Let_def)

lemma rest_after_read:
  "rest (f\<lparr>pos := pos f + length (take n (rest f)), fault_in := x\<rparr>) = drop n (rest f)"
  by (simp add: rest_def min_def add.commute)

lemma drain_Suspended_healthy:
  "fault_in f = None \<Longrightarrow>
   drain fs (Suspended f) =
     (if rest f \<noteq> []
      then (case drain fs (Suspended (f\<lparr>pos := pos f + length (take 65536 (rest f)), fault_in := None\<rparr>)) of
              (cs, r, gf) \<Rightarrow> (take 65536 (rest f) # cs, r, gf))
      else ([], None, Finished (Some (aexit (f\<lparr>pos := pos f + length (take 65536 (rest f)), fault_in := None\<rparr>)))))"
  by (subst drain.simps) (simp add: read_healthy after_read_def)

lemma drain_Created:
  "fs p = Some (Regular fl) \<Longrightarrow>
   drain fs (Created p) =
   drain fs (Suspended \<lparr>data = content fl, pos = 0, fault_in = read_fault fl, closed = False\<rparr>)"
  by (simp add: drain.simps [of fs "Created p"] drain.simps [of fs "Suspended f" for f] aiofiles_open_def)

lemma drain_healthy:
  "fault_in f = None \<Longrightarrow> drain fs (Suspended f) = (cs, r, gf) \<Longrightarrow>
   r = None \<and> concat cs = rest f \<and>
   (\<forall>c \<in> set (butlast cs). length c = 65536) \<and>
   (\<forall>k. length (rest f) = k * 65536 \<longrightarrow> length cs = k \<and> (\<forall>c \<in> set cs. length c = 65536))"
proof (induction "length (rest f)" arbitrary: f cs r gf rule: less_induct)
  case less
  define f' where "f' = f\<lparr>pos := pos f + length (take 65536 (rest f)), fault_in := None\<rparr>"
  have unfold: "drain fs (Suspended f) =
     (if rest f \<noteq> []
      then (case drain fs (Suspended f') of (cs, r, gf) \<Rightarrow> (take 65536 (rest f) # cs, r, gf))
      else ([], None, Finished (Some (aexit f'))))"
    unfolding f'_def using less.prems(1) by (rule drain_Suspended_healthy)
  have healthy': "fault_in f' = None"
    by (simp add: f'_def)
  have rest': "rest f' = drop 65536 (rest f)"
    unfolding f'_def by (rule rest_after_read)
  have len': "length (rest f') = length (rest f) - 65536"
    by (simp add: rest')
  show ?case
  proof (cases "rest f = []")
    case True
    with less.prems show ?thesis
      by (simp add: unfold)
  next
    case False
    then have pos: "0 < length (rest f)" by simp
    obtain cs' r' gf' where d: "drain fs (Suspended f') = (cs', r', gf')"
      by (cases "drain fs (Suspended f')") auto
    have cs: "cs = take 65536 (rest f) # cs'" and r: "r = r'"
      using less.prems False d by (simp_all add: unfold)
    have smaller: "length (rest f') < length (rest f)"
      using pos by (simp add: len')
    have IH: "r' = None \<and> concat cs' = rest f' \<and>
      (\<forall>c \<in> set (butlast cs'). length c = 65536) \<and>
      (\<forall>k. length (rest f') = k * 65536 \<longrightarrow>
           length cs' = k \<and> (\<forall>c \<in> set cs'. length c = 65536))"
      using less.hyps [OF smaller healthy' d] .
    have nonlast: "length (take 65536 (rest f)) = 65536" if "cs' \<noteq> []"
    proof -
      have "rest f' \<noteq> []"
      proof
        assume "rest f' = []"
        then have "length (rest f') = 0 * 65536" by simp
        with IH have "length cs' = 0" by blast
        with that show False by simp
      qed
      then show ?thesis by (simp add: rest')
    qed
    have full: "length cs = k \<and> (\<forall>c \<in> set cs. length c = 65536)"
      if m: "length (rest f) = k * 65536" for k
    proof (cases k)
      case 0
      with m pos show ?thesis by simp
    next
      case (Suc k')
      with m have "length (rest f') = k' * 65536"
        by (simp add: len')
      with IH have "length cs' = k'" and "\<forall>c \<in> set cs'. length c = 65536"
        by blast+
      moreover have "length (take 65536 (rest f)) = 65536"
        using m Suc by simp
      ultimately show ?thesis
        using Suc by (simp add: cs)
    qed
    from IH have IH1: "r' = None" and IH2: "concat cs' = rest f'"
      and IH3: "\<forall>c \<in> set (butlast cs'). length c = 65536"
      by blast+
    have cat: "concat cs = rest f"
      using IH2 by (simp add: cs rest')
    have butl: "\<forall>c \<in> set (butlast cs). length c = 65536"
      using IH3 nonlast by (simp add: cs)
    have "r = None"
      using IH1 r by simp
    with cat butl full show ?thesis
      by blast
  qed
qed


lemma drain_healthy_file:
  assumes "fs path = Some (Regular fl)" and "read_fault fl = None"
    and "drain fs (file_sender path) = (chunks, r, gf)"
  shows "r = None" and "concat chunks = content fl"
    and "\<forall>c \<in> set (butlast chunks). length c = 65536"
    and "length (content fl) = k * 65536 \<Longrightarrow>
         length chunks = k \<and> (\<forall>c \<in> set chunks. length c = 65536)"
proof -
  define f where "f = \<lparr>data = content fl, pos = 0, fault_in = read_fault fl, closed = False\<rparr>"
  have healthy: "fault_in f = None"
    using assms(2) by (simp add: f_def)
  have rest: "rest f = content fl"
    by (simp add: rest_def f_def)
  have d: "drain fs (Suspended f) = (chunks, r, gf)"
    using assms(1,3) by (simp add: file_sender_def drain_Created f_def)
  note all = drain_healthy [OF healthy d, unfolded rest]
  from all show "r = None" by blast
  from all show "concat chunks = content fl" by blast
  from all show "\<forall>c \<in> set (butlast chunks). length c = 65536" by blast
  from all show "length chunks = k \<and> (\<forall>c \<in> set chunks. length c = 65536)"
    if "length (content fl) = k * 65536"
    using that by blast
qed



text \<open>
  C5. For a 0-byte file the first request for a chunk is answered with end-of-stream,
  and iterating delivers zero chunks. More generally, whenever a read returns zero
  bytes the stream ends there, and it stays ended.
\<close>

theorem zero_byte_read_ends_stream:
  "(fs path = Some (Regular fl) \<and> content fl = [] \<and> read_fault fl \<noteq> Some 0 \<longrightarrow>
      (\<exists>gf. anext fs (file_sender path) = (StopAsyncIteration, gf) \<and>
            drain fs (file_sender path) = ([], None, gf))) \<and>
   (read (64 * 1024) f = Inr ([], f') \<longrightarrow>
      (\<exists>gf. anext fs (Suspended f) = (StopAsyncIteration, gf) \<and>
            drain fs (Suspended f) = ([], None, gf) \<and>
            anext fs gf = (StopAsyncIteration, gf)))"
proof (intro conjI impI)
  assume a: "fs path = Some (Regular fl) \<and> content fl = [] \<and> read_fault fl \<noteq> Some 0"
  then have "\<exists>gf. anext fs (file_sender path) = (StopAsyncIteration, gf)"
    by (simp add: file_sender_def aiofiles_open_def read_def after_read_def)
  then show "\<exists>gf. anext fs (file_sender path) = (StopAsyncIteration, gf) \<and>
            drain fs (file_sender path) = ([], None, gf)"
    by (auto simp: drain_Stop)
next
  assume "read (64 * 1024) f = Inr ([], f')"
  then have "anext fs (Suspended f) = (StopAsyncIteration, Finished (Some (aexit f')))"
    by (simp add: after_read_def)
  then show "\<exists>gf. anext fs (Suspended f) = (StopAsyncIteration, gf) \<and>
            drain fs (Suspended f) = ([], None, gf) \<and>
            anext fs gf = (StopAsyncIteration, gf)"
    by (simp add: drain_Stop)
qed

theorem zero_byte_read_ends_stream_witness:
  "[''empty.bin'' \<mapsto> Regular \<lparr>content = [], read_fault = None\<rparr>] ''empty.bin''
     = Some (Regular \<lparr>content = [], read_fault = None\<rparr>) \<and>
   read (64 * 1024) \<lparr>data = [7], pos = 1, fault_in = None, closed = False\<rparr>
     = Inr ([], \<lparr>data = [7], pos = 1, fault_in = None, closed = False\<rparr>) \<and>
   (\<exists>gf. anext [''empty.bin'' \<mapsto> Regular \<lparr>content = [], read_fault = None\<rparr>] (file_sender ''empty.bin'')
           = (StopAsyncIteration, gf) \<and>
         drain [''empty.bin'' \<mapsto> Regular \<lparr>content = [], read_fault = None\<rparr>] (file_sender ''empty.bin'')
           = ([], None, gf)) \<and>
   (\<exists>gf. anext Map.empty (Suspended \<lparr>data = [7], pos = 1, fault_in = None, closed = False\<rparr>)
           = (StopAsyncIteration, gf) \<and>
         drain Map.empty (Suspended \<lparr>data = [7], pos = 1, fault_in = None, closed = False\<rparr>)
           = ([], None, gf))"
proof -
  have r: "read (64 * 1024) \<lparr>data = [7], pos = 1, fault_in = None, closed = False\<rparr>
     = Inr ([], \<lparr>data = [7], pos = 1, fault_in = None, closed = False\<rparr>)"
    by (simp add: read_def)
  show ?thesis
    using r zero_byte_read_ends_stream
      [of "[''empty.bin'' \<mapsto> Regular \<lparr>content = [], read_fault = None\<rparr>]" "''empty.bin''"
          "\<lparr>content = [], read_fault = None\<rparr>"
          "\<lparr>data = [7], pos = 1, fault_in = None, closed = False\<rparr>"
          "\<lparr>data = [7], pos = 1, fault_in = None, closed = False\<rparr>"]
      zero_byte_read_ends_stream
      [of Map.empty "''empty.bin''" "\<lparr>content = [], read_fault = None\<rparr>"
          "\<lparr>data = [7], pos = 1, fault_in = None, closed = False\<rparr>"
          "\<lparr>data = [7], pos = 1, fault_in = None, closed = False\<rparr>"]
    by auto
qed

text \<open>
  C10. Every chunk yielded by \<open>file_sender\<close> is non-empty. In particular, for a file
  whose size is k times 65536 with k positive, exactly k chunks are delivered, each
  of length exactly 65536; no zero-length chunk follows them.
\<close>

theorem file_sender_chunks_nonempty:
  "(anext fs g = (Yield c, g') \<longrightarrow> c \<noteq> []) \<and>
   (drain fs (file_sender path) = (chunks, r, gf) \<longrightarrow>
      (\<forall>c \<in> set chunks. c \<noteq> []) \<and>
      (fs path = Some (Regular fl) \<and> read_fault fl = None \<and> 0 < k \<and>
       length (content fl) = k * 65536 \<longrightarrow>
         r = None \<and> length chunks = k \<and> (\<forall>c \<in> set chunks. length c = 65536)))"
proof (intro conjI impI)
  assume "anext fs g = (Yield c, g')"
  then show "c \<noteq> []" by (rule anext_Yield_nonempty)
next
  assume "drain fs (file_sender path) = (chunks, r, gf)"
  then show "\<forall>c \<in> set chunks. c \<noteq> []" by (rule drain_chunks_nonempty)
next
  assume d: "drain fs (file_sender path) = (chunks, r, gf)"
    and a: "fs path = Some (Regular fl) \<and> read_fault fl = None \<and> 0 < k \<and>
       length (content fl) = k * 65536"
  from a have 1: "fs path = Some (Regular fl)" and 2: "read_fault fl = None"
    and 3: "length (content fl) = k * 65536" by blast+
  from drain_healthy_file(1) [OF 1 2 d] show "r = None" .
  from drain_healthy_file(4) [OF 1 2 d 3] show "length chunks = k" by blast
  from drain_healthy_file(4) [OF 1 2 d 3] show "\<forall>c \<in> set chunks. length c = 65536" by blast
qed

theorem file_sender_chunks_nonempty_witness:
  "[''test.png'' \<mapsto> Regular \<lparr>content = replicate 131072 0, read_fault = None\<rparr>] ''test.png''
     = Some (Regular \<lparr>content = replicate 131072 0, read_fault = None\<rparr>) \<and>
   read_fault \<lparr>content = replicate 131072 0, read_fault = None\<rparr> = None \<and>
   (0::nat) < 2 \<and>
   length (content \<lparr>content = replicate 131072 (0::byte), read_fault = None\<rparr>) = 2 * 65536 \<and>
   (\<exists>chunks gf.
      drain [''test.png'' \<mapsto> Regular \<lparr>content = replicate 131072 0, read_fault = None\<rparr>]
        (file_sender ''test.png'') = (chunks, None, gf) \<and>
      length chunks = 2 \<and> (\<forall>c \<in> set chunks. c \<noteq> [] \<and> length c = 65536))"
proof -
  define fl :: local_file where "fl = \<lparr>content = replicate 131072 0, read_fault = None\<rparr>"
  define fs :: filesystem where "fs = [''test.png'' \<mapsto> Regular fl]"
  have hyp: "fs ''test.png'' = Some (Regular fl) \<and> read_fault fl = None \<and> (0::nat) < 2 \<and>
      length (content fl) = 2 * 65536"
    by (simp add: fs_def fl_def)
  obtain chunks r gf where d: "drain fs (file_sender ''test.png'') = (chunks, r, gf)"
    by (cases "drain fs (file_sender ''test.png'')") auto
  from file_sender_chunks_nonempty [of fs "Created ''test.png''" "[]" "Created ''test.png''"
      "''test.png''" chunks r gf fl 2] d hyp
  have "r = None \<and> length chunks = 2 \<and> (\<forall>c \<in> set chunks. c \<noteq> [] \<and> length c = 65536)"
    by blast
  with d hyp show ?thesis
    unfolding fs_def fl_def by blast
qed


section \<open>The file handle over the life of a stream\<close>


















section \<open>Properties of the Multipart Upload Client\<close>

lemma field_list_add_field:
  "field_list (add_field d n v fn) = field_list d @ [\<lparr>name = n, filename = fn, source = v\<rparr>]"
  by (simp add: add_field_def)

lemma field_list_add_fields:
  "field_list (add_fields d xs) =
   field_list d @ map (\<lambda>(n, v, fn). \<lparr>name = n, filename = fn, source = v\<rparr>) xs"
  by (induction d xs rule: add_fields.induct) (simp_all add: field_list_add_field)

lemma field_list_req_data:
  "field_list req_data =
    [\<lparr>name = ''files[]'', filename = Some ''image1.png'', source = Stream (file_sender file_name)\<rparr>,
     \<lparr>name = ''files[]'', filename = Some ''image2.png'', source = Stream (file_sender file_name)\<rparr>,
     \<lparr>name = ''files[]'', filename = Some ''image3.png'', source = Stream (file_sender file_name)\<rparr>,
     \<lparr>name = ''Hey'', filename = None, source = Text ''hi''\<rparr>,
     \<lparr>name = ''Hi[One]'', filename = None, source = Text ''1''\<rparr>,
     \<lparr>name = ''Hi[Two]'', filename = None, source = Text ''2.0''\<rparr>]"
  by (simp add: req_data_def Let_def new_FormData_def add_field_def)

lemma encode_part_disposition:
  "encode_part fs fld = Inr p \<Longrightarrow> disposition p = (name fld, filename fld)"
  by (auto simp: encode_part_def disposition_def split: field_value.splits prod.splits option.splits)

lemma build_body_dispositions:
  "build_body fs flds = Inr ps \<Longrightarrow>
   map disposition ps = map (\<lambda>fld. (name fld, filename fld)) flds"
proof (induction flds arbitrary: ps)
  case Nil
  then show ?case by simp
next
  case (Cons fld flds)
  from Cons.prems obtain p ps' where p: "encode_part fs fld = Inr p"
    and ps': "build_body fs flds = Inr ps'" and ps: "ps = p # ps'"
    by (auto split: sum.splits)
  from Cons.IH [OF ps'] encode_part_disposition [OF p] show ?case
    by (simp add: ps)
qed

lemma encode_part_Stream_healthy:
  assumes "fs path = Some (Regular fl)" and "read_fault fl = None"
  shows "\<exists>chunks. encode_part fs \<lparr>name = n, filename = fn, source = Stream (file_sender path)\<rparr>
           = Inr \<lparr>disposition_name = n, disposition_filename = fn, payload = chunks\<rparr> \<and>
         concat chunks = content fl"
proof -
  obtain chunks r gf where d: "drain fs (file_sender path) = (chunks, r, gf)"
    by (cases "drain fs (file_sender path)") auto
  from drain_healthy_file(1,2) [OF assms d] have "r = None" and "concat chunks = content fl"
    by simp_all
  with d show ?thesis
    by (simp add: encode_part_def)
qed


lemma encode_part_Text:
  "encode_part fs \<lparr>name = n, filename = fn, source = Text s\<rparr>
     = Inr \<lparr>disposition_name = n, disposition_filename = fn, payload = [encode_text s]\<rparr>"
  by (simp add: encode_part_def)

lemma build_body_req_data_healthy:
  assumes "fs file_name = Some (Regular fl)" and "read_fault fl = None"
  shows "\<exists>c1 c2 c3. build_body fs (field_list req_data) =
      Inr [\<lparr>disposition_name = ''files[]'', disposition_filename = Some ''image1.png'', payload = c1\<rparr>,
           \<lparr>disposition_name = ''files[]'', disposition_filename = Some ''image2.png'', payload = c2\<rparr>,
           \<lparr>disposition_name = ''files[]'', disposition_filename = Some ''image3.png'', payload = c3\<rparr>,
           \<lparr>disposition_name = ''Hey'', disposition_filename = None, payload = [encode_text ''hi'']\<rparr>,
           \<lparr>disposition_name = ''Hi[One]'', disposition_filename = None, payload = [encode_text ''1'']\<rparr>,
           \<lparr>disposition_name = ''Hi[Two]'', disposition_filename = None, payload = [encode_text ''2.0'']\<rparr>] \<and>
      concat c1 = content fl \<and> concat c2 = content fl \<and> concat c3 = content fl"
proof -
  from encode_part_Stream_healthy [of fs file_name fl, OF assms] obtain c1 where
    1: "encode_part fs \<lparr>name = ''files[]'', filename = Some ''image1.png'', source = Stream (file_sender file_name)\<rparr>
        = Inr \<lparr>disposition_name = ''files[]'', disposition_filename = Some ''image1.png'', payload = c1\<rparr>"
    and c1: "concat c1 = content fl" by blast
  from encode_part_Stream_healthy [of fs file_name fl, OF assms] obtain c2 where
    2: "encode_part fs \<lparr>name = ''files[]'', filename = Some ''image2.png'', source = Stream (file_sender file_name)\<rparr>
        = Inr \<lparr>disposition_name = ''files[]'', disposition_filename = Some ''image2.png'', payload = c2\<rparr>"
    and c2: "concat c2 = content fl" by blast
  from encode_part_Stream_healthy [of fs file_name fl, OF assms] obtain c3 where
    3: "encode_part fs \<lparr>name = ''files[]'', filename = Some ''image3.png'', source = Stream (file_sender file_name)\<rparr>
        = Inr \<lparr>disposition_name = ''files[]'', disposition_filename = Some ''image3.png'', payload = c3\<rparr>"
    and c3: "concat c3 = content fl" by blast
  have "build_body fs (field_list req_data) =
      Inr [\<lparr>disposition_name = ''files[]'', disposition_filename = Some ''image1.png'', payload = c1\<rparr>,
           \<lparr>disposition_name = ''files[]'', disposition_filename = Some ''image2.png'', payload = c2\<rparr>,
           \<lparr>disposition_name = ''files[]'', disposition_filename = Some ''image3.png'', payload = c3\<rparr>,
           \<lparr>disposition_name = ''Hey'', disposition_filename = None, payload = [encode_text ''hi'']\<rparr>,
           \<lparr>disposition_name = ''Hi[One]'', disposition_filename = None, payload = [encode_text ''1'']\<rparr>,
           \<lparr>disposition_name = ''Hi[Two]'', disposition_filename = None, payload = [encode_text ''2.0'']\<rparr>]"
    by (simp add: field_list_req_data 1 2 3 encode_part_Text)
  with c1 c2 c3 show ?thesis by blast
qed


lemma req_data_add_fields:
  "req_data = add_fields (new_FormData False)
     [(''files[]'', Stream (file_sender file_name), Some ''image1.png''),
      (''files[]'', Stream (file_sender file_name), Some ''image2.png''),
      (''files[]'', Stream (file_sender file_name), Some ''image3.png''),
      (''Hey'', Text ''hi'', None),
      (''Hi[One]'', Text ''1'', None),
      (''Hi[Two]'', Text ''2.0'', None)]"
  by (simp add: req_data_def Let_def)

lemma req_not_connected:
  "\<not> connects srv url \<Longrightarrow> req fs srv = \<lparr>trace = [], outcome = Inl ClientConnectorError\<rparr>"
  by (simp add: req_def post_def)


lemma req_answered:
  "connects srv url \<Longrightarrow> build_body fs (field_list req_data) = Inr b \<Longrightarrow>
   respond srv url b = Inr resp \<Longrightarrow>
   req fs srv =
     \<lparr>trace = [Connected url, Posted url b, Printed (body_text resp),
               Asserted (201 = status resp)],
      outcome = validate resp 201\<rparr>"
  by (simp add: req_def post_def)

lemma req_trace_cases:
  "trace (req fs srv) = [] \<or>
   trace (req fs srv) = [Connected url] \<or>
   (\<exists>b. trace (req fs srv) = [Connected url, Posted url b]) \<or>
   (\<exists>b t ok. trace (req fs srv) = [Connected url, Posted url b, Printed t, Asserted ok])"
  by (simp add: req_def post_def split: sum.splits)

text \<open>
  C2. For every sequence of fields added to a form, file-backed or text, the encoded
  body has one part per added field, and the \<open>Content-Disposition\<close> sections of the
  parts are those of the fields in the order in which they were added. The form of
  \<open>req\<close> is built by adding six fields, and its body carries them in that order:
  files[]/image1.png, files[]/image2.png, files[]/image3.png, Hey, Hi[One], Hi[Two].
\<close>

theorem field_order_preserved:
  "field_list (add_fields (new_FormData q) xs)
     = map (\<lambda>(n, v, fn). \<lparr>name = n, filename = fn, source = v\<rparr>) xs \<and>
   (build_body fs (field_list (add_fields (new_FormData q) xs)) = Inr ps \<longrightarrow>
      length ps = length xs \<and> map disposition ps = map (\<lambda>(n, v, fn). (n, fn)) xs) \<and>
   req_data = add_fields (new_FormData False)
     [(''files[]'', Stream (file_sender file_name), Some ''image1.png''),
      (''files[]'', Stream (file_sender file_name), Some ''image2.png''),
      (''files[]'', Stream (file_sender file_name), Some ''image3.png''),
      (''Hey'', Text ''hi'', None),
      (''Hi[One]'', Text ''1'', None),
      (''Hi[Two]'', Text ''2.0'', None)] \<and>
   (build_body fs (field_list req_data) = Inr ps' \<longrightarrow>
      map disposition ps' =
        [(''files[]'', Some ''image1.png''), (''files[]'', Some ''image2.png''),
         (''files[]'', Some ''image3.png''), (''Hey'', None), (''Hi[One]'', None),
         (''Hi[Two]'', None)]) \<and>
   (fs file_name = Some (Regular fl) \<and> read_fault fl = None \<longrightarrow>
      (\<exists>ps'. build_body fs (field_list req_data) = Inr ps'))"
proof (intro conjI impI)
  show fl: "field_list (add_fields (new_FormData q) xs)
     = map (\<lambda>(n, v, fn). \<lparr>name = n, filename = fn, source = v\<rparr>) xs"
    by (simp add: field_list_add_fields new_FormData_def)
  show "req_data = add_fields (new_FormData False)
     [(''files[]'', Stream (file_sender file_name), Some ''image1.png''),
      (''files[]'', Stream (file_sender file_name), Some ''image2.png''),
      (''files[]'', Stream (file_sender file_name), Some ''image3.png''),
      (''Hey'', Text ''hi'', None),
      (''Hi[One]'', Text ''1'', None),
      (''Hi[Two]'', Text ''2.0'', None)]"
    by (rule req_data_add_fields)
  {
    assume b: "build_body fs (field_list (add_fields (new_FormData q) xs)) = Inr ps"
    from build_body_dispositions [OF b]
    have m: "map disposition ps = map (\<lambda>(n, v, fn). (n, fn)) xs"
      by (simp add: fl split_def comp_def)
    then show "map disposition ps = map (\<lambda>(n, v, fn). (n, fn)) xs" .
    from m have "length (map disposition ps) = length (map (\<lambda>(n, v, fn). (n, fn)) xs)"
      by simp
    then show "length ps = length xs"
      by simp
  }
  {
    assume b: "build_body fs (field_list req_data) = Inr ps'"
    from build_body_dispositions [OF b]
    show "map disposition ps' =
        [(''files[]'', Some ''image1.png''), (''files[]'', Some ''image2.png''),
         (''files[]'', Some ''image3.png''), (''Hey'', None), (''Hi[One]'', None),
         (''Hi[Two]'', None)]"
      by (simp add: field_list_req_data)
  }
  {
    assume "fs file_name = Some (Regular fl) \<and> read_fault fl = None"
    then have "fs file_name = Some (Regular fl)" and "read_fault fl = None" by simp_all
    from build_body_req_data_healthy [of fs fl, OF this]
    show "\<exists>ps'. build_body fs (field_list req_data) = Inr ps'" by blast
  }
qed

theorem field_order_preserved_witness:
  "build_body Map.empty (field_list (add_fields (new_FormData False)
       [(''b'', Text ''1'', None), (''a'', Text ''2'', Some ''f''), (''b'', Text ''3'', None)]))
     = Inr [\<lparr>disposition_name = ''b'', disposition_filename = None, payload = [encode_text ''1'']\<rparr>,
            \<lparr>disposition_name = ''a'', disposition_filename = Some ''f'', payload = [encode_text ''2'']\<rparr>,
            \<lparr>disposition_name = ''b'', disposition_filename = None, payload = [encode_text ''3'']\<rparr>] \<and>
   map disposition
     [\<lparr>disposition_name = ''b'', disposition_filename = None, payload = [encode_text ''1'']\<rparr>,
      \<lparr>disposition_name = ''a'', disposition_filename = Some ''f'', payload = [encode_text ''2'']\<rparr>,
      \<lparr>disposition_name = ''b'', disposition_filename = None, payload = [encode_text ''3'']\<rparr>]
     = [(''b'', None), (''a'', Some ''f''), (''b'', None)] \<and>
   [file_name \<mapsto> Regular \<lparr>content = [1, 2, 3], read_fault = None\<rparr>] file_name
     = Some (Regular \<lparr>content = [1, 2, 3], read_fault = None\<rparr>) \<and>
   read_fault \<lparr>content = [1, 2, 3], read_fault = None\<rparr> = None \<and>
   (\<exists>ps'. build_body [file_name \<mapsto> Regular \<lparr>content = [1, 2, 3], read_fault = None\<rparr>]
            (field_list req_data) = Inr ps' \<and>
          map disposition ps' =
            [(''files[]'', Some ''image1.png''), (''files[]'', Some ''image2.png''),
             (''files[]'', Some ''image3.png''), (''Hey'', None), (''Hi[One]'', None),
             (''Hi[Two]'', None)])"
proof -
  define xs :: "(string \<times> field_value \<times> string option) list"
    where "xs = [(''b'', Text ''1'', None), (''a'', Text ''2'', Some ''f''), (''b'', Text ''3'', None)]"
  define ps where "ps =
     [\<lparr>disposition_name = ''b'', disposition_filename = None, payload = [encode_text ''1'']\<rparr>,
      \<lparr>disposition_name = ''a'', disposition_filename = Some ''f'', payload = [encode_text ''2'']\<rparr>,
      \<lparr>disposition_name = ''b'', disposition_filename = None, payload = [encode_text ''3'']\<rparr>]"
  define fl :: local_file where "fl = \<lparr>content = [1, 2, 3], read_fault = None\<rparr>"
  define fs :: filesystem where "fs = [file_name \<mapsto> Regular fl]"
  have b: "build_body Map.empty (field_list (add_fields (new_FormData False) xs)) = Inr ps"
    by (simp add: xs_def ps_def new_FormData_def add_field_def encode_part_def)
  have h: "fs file_name = Some (Regular fl) \<and> read_fault fl = None"
    by (simp add: fs_def fl_def)
  note t1 = field_order_preserved [of False xs Map.empty ps ps fl]
  from t1 b have 1: "map disposition ps = [(''b'', None), (''a'', Some ''f''), (''b'', None)]"
    by (simp add: xs_def)
  from field_order_preserved [of False xs fs ps _ fl] h
  obtain ps' where ps': "build_body fs (field_list req_data) = Inr ps'"
    by blast
  from field_order_preserved [of False xs fs ps ps' fl] ps'
  have 2: "map disposition ps' =
            [(''files[]'', Some ''image1.png''), (''files[]'', Some ''image2.png''),
             (''files[]'', Some ''image3.png''), (''Hey'', None), (''Hi[One]'', None),
             (''Hi[Two]'', None)]"
    by blast
  from b 1 h ps' 2
  have "build_body Map.empty (field_list (add_fields (new_FormData False) xs)) = Inr ps \<and>
    map disposition ps = [(''b'', None), (''a'', Some ''f''), (''b'', None)] \<and>
    fs file_name = Some (Regular fl) \<and> read_fault fl = None \<and>
    (\<exists>ps'. build_body fs (field_list req_data) = Inr ps' \<and>
          map disposition ps' =
            [(''files[]'', Some ''image1.png''), (''files[]'', Some ''image2.png''),
             (''files[]'', Some ''image3.png''), (''Hey'', None), (''Hi[One]'', None),
             (''Hi[Two]'', None)])"
    by (intro conjI exI [of _ ps']) simp_all
  then show ?thesis
    unfolding xs_def ps_def fl_def fs_def .
qed

text \<open>
  C4. Adding a field never touches the fields added before it, whatever their names.
  The three file fields of \<open>req\<close>, all named files[], give three distinct parts of
  the body, with the filenames image1.png, image2.png and image3.png; each part is
  fed by a stream of its own and carries the whole file.
\<close>

theorem repeated_field_name_parts:
  "field_list (add_field d n v fn) = field_list d @ [\<lparr>name = n, filename = fn, source = v\<rparr>] \<and>
   (fs file_name = Some (Regular fl) \<and> read_fault fl = None \<longrightarrow>
      (\<exists>p1 p2 p3 ps. build_body fs (field_list req_data) = Inr (p1 # p2 # p3 # ps) \<and>
         disposition p1 = (''files[]'', Some ''image1.png'') \<and>
         disposition p2 = (''files[]'', Some ''image2.png'') \<and>
         disposition p3 = (''files[]'', Some ''image3.png'') \<and>
         concat (payload p1) = content fl \<and>
         concat (payload p2) = content fl \<and>
         concat (payload p3) = content fl \<and>
         distinct [p1, p2, p3] \<and>
         (\<forall>p \<in> set ps. disposition_name p \<noteq> ''files[]'')))"
proof (intro conjI impI)
  show "field_list (add_field d n v fn) = field_list d @ [\<lparr>name = n, filename = fn, source = v\<rparr>]"
    by (rule field_list_add_field)
next
  assume "fs file_name = Some (Regular fl) \<and> read_fault fl = None"
  then have "fs file_name = Some (Regular fl)" and "read_fault fl = None" by simp_all
  from build_body_req_data_healthy [of fs fl, OF this] obtain c1 c2 c3 where
    b: "build_body fs (field_list req_data) =
      Inr [\<lparr>disposition_name = ''files[]'', disposition_filename = Some ''image1.png'', payload = c1\<rparr>,
           \<lparr>disposition_name = ''files[]'', disposition_filename = Some ''image2.png'', payload = c2\<rparr>,
           \<lparr>disposition_name = ''files[]'', disposition_filename = Some ''image3.png'', payload = c3\<rparr>,
           \<lparr>disposition_name = ''Hey'', disposition_filename = None, payload = [encode_text ''hi'']\<rparr>,
           \<lparr>disposition_name = ''Hi[One]'', disposition_filename = None, payload = [encode_text ''1'']\<rparr>,
           \<lparr>disposition_name = ''Hi[Two]'', disposition_filename = None, payload = [encode_text ''2.0'']\<rparr>]"
    and c: "concat c1 = content fl" "concat c2 = content fl" "concat c3 = content fl"
    by blast
  show "\<exists>p1 p2 p3 ps. build_body fs (field_list req_data) = Inr (p1 # p2 # p3 # ps) \<and>
         disposition p1 = (''files[]'', Some ''image1.png'') \<and>
         disposition p2 = (''files[]'', Some ''image2.png'') \<and>
         disposition p3 = (''files[]'', Some ''image3.png'') \<and>
         concat (payload p1) = content fl \<and>
         concat (payload p2) = content fl \<and>
         concat (payload p3) = content fl \<and>
         distinct [p1, p2, p3] \<and>
         (\<forall>p \<in> set ps. disposition_name p \<noteq> ''files[]'')"
    unfolding b using c
    by (intro exI conjI) (rule refl, simp_all add: disposition_def)
qed

theorem repeated_field_name_parts_witness:
  "[file_name \<mapsto> Regular \<lparr>content = [1, 2, 3], read_fault = None\<rparr>] file_name
     = Some (Regular \<lparr>content = [1, 2, 3], read_fault = None\<rparr>) \<and>
   read_fault \<lparr>content = [1, 2, 3], read_fault = None\<rparr> = None \<and>
   (\<exists>p1 p2 p3 ps.
      build_body [file_name \<mapsto> Regular \<lparr>content = [1, 2, 3], read_fault = None\<rparr>] (field_list req_data)
        = Inr (p1 # p2 # p3 # ps) \<and>
      disposition p1 = (''files[]'', Some ''image1.png'') \<and>
      disposition p2 = (''files[]'', Some ''image2.png'') \<and>
      disposition p3 = (''files[]'', Some ''image3.png'') \<and>
      concat (payload p1) = [1, 2, 3] \<and>
      concat (payload p2) = [1, 2, 3] \<and>
      concat (payload p3) = [1, 2, 3] \<and>
      distinct [p1, p2, p3])"
proof -
  define fl :: local_file where "fl = \<lparr>content = [1, 2, 3], read_fault = None\<rparr>"
  define fs :: filesystem where "fs = [file_name \<mapsto> Regular fl]"
  have h: "fs file_name = Some (Regular fl) \<and> read_fault fl = None"
    by (simp add: fs_def fl_def)
  have c: "content fl = [1, 2, 3]"
    by (simp add: fl_def)
  from repeated_field_name_parts [of "new_FormData False" "''x''" "Text ''y''" None fs fl] h
  have "\<exists>p1 p2 p3 ps. build_body fs (field_list req_data) = Inr (p1 # p2 # p3 # ps) \<and>
         disposition p1 = (''files[]'', Some ''image1.png'') \<and>
         disposition p2 = (''files[]'', Some ''image2.png'') \<and>
         disposition p3 = (''files[]'', Some ''image3.png'') \<and>
         concat (payload p1) = content fl \<and>
         concat (payload p2) = content fl \<and>
         concat (payload p3) = content fl \<and>
         distinct [p1, p2, p3] \<and>
         (\<forall>p \<in> set ps. disposition_name p \<noteq> ''files[]'')"
    by blast
  then have "\<exists>p1 p2 p3 ps. build_body fs (field_list req_data) = Inr (p1 # p2 # p3 # ps) \<and>
         disposition p1 = (''files[]'', Some ''image1.png'') \<and>
         disposition p2 = (''files[]'', Some ''image2.png'') \<and>
         disposition p3 = (''files[]'', Some ''image3.png'') \<and>
         concat (payload p1) = [1, 2, 3] \<and>
         concat (payload p2) = [1, 2, 3] \<and>
         concat (payload p3) = [1, 2, 3] \<and>
         distinct [p1, p2, p3]"
    unfolding c by blast
  with h show ?thesis
    unfolding fs_def fl_def by (intro conjI) simp_all
qed

text \<open>
  C3. The status check succeeds if and only if the status of the response equals the
  expected status, and fails with an assertion error for every other status. In
  \<open>req\<close> the expected status is 201: a run that receives a response ends in success
  exactly when its status is 201 and in an assertion error otherwise, and it has sent
  one request, on one connection, and no second one.
\<close>

theorem validate_status:
  "(validate resp expected_status = Inr () \<longleftrightarrow> status resp = expected_status) \<and>
   (status resp \<noteq> expected_status \<longrightarrow> validate resp expected_status = Inl AssertionError) \<and>
   (connects srv url \<and> build_body fs (field_list req_data) = Inr b \<and>
    respond srv url b = Inr resp \<longrightarrow>
      (outcome (req fs srv) = Inr () \<longleftrightarrow> status resp = 201) \<and>
      (status resp \<noteq> 201 \<longrightarrow> outcome (req fs srv) = Inl AssertionError) \<and>
      trace (req fs srv) = [Connected url, Posted url b, Printed (body_text resp),
                            Asserted (201 = status resp)])"
  by (auto simp: validate_def req_answered)

theorem validate_status_witness:
  "status \<lparr>status = 400, body_text = ''bad request''\<rparr> \<noteq> 201 \<and>
   validate \<lparr>status = 400, body_text = ''bad request''\<rparr> 201 = Inl AssertionError \<and>
   validate \<lparr>status = 201, body_text = ''created''\<rparr> 201 = Inr () \<and>
   (\<exists>b. build_body [file_name \<mapsto> Regular \<lparr>content = [1, 2, 3], read_fault = None\<rparr>]
           (field_list req_data) = Inr b \<and>
        outcome (req [file_name \<mapsto> Regular \<lparr>content = [1, 2, 3], read_fault = None\<rparr>]
                   \<lparr>connects = (\<lambda>u. True),
                    respond = (\<lambda>u b. Inr \<lparr>status = 400, body_text = ''bad request''\<rparr>)\<rparr>)
           = Inl AssertionError \<and>
        outcome (req [file_name \<mapsto> Regular \<lparr>content = [1, 2, 3], read_fault = None\<rparr>]
                   \<lparr>connects = (\<lambda>u. True),
                    respond = (\<lambda>u b. Inr \<lparr>status = 201, body_text = ''created''\<rparr>)\<rparr>)
           = Inr () \<and>
        trace (req [file_name \<mapsto> Regular \<lparr>content = [1, 2, 3], read_fault = None\<rparr>]
                   \<lparr>connects = (\<lambda>u. True),
                    respond = (\<lambda>u b. Inr \<lparr>status = 400, body_text = ''bad request''\<rparr>)\<rparr>)
           = [Connected url, Posted url b, Printed ''bad request'', Asserted False])"
proof -
  define fl :: local_file where "fl = \<lparr>content = [1, 2, 3], read_fault = None\<rparr>"
  define fs :: filesystem where "fs = [file_name \<mapsto> Regular fl]"
  define r400 where "r400 = \<lparr>status = 400, body_text = ''bad request''\<rparr>"
  define r201 where "r201 = \<lparr>status = 201, body_text = ''created''\<rparr>"
  define s400 :: server
    where "s400 = \<lparr>connects = (\<lambda>u. True), respond = (\<lambda>u b. Inr r400)\<rparr>"
  define s201 :: server
    where "s201 = \<lparr>connects = (\<lambda>u. True), respond = (\<lambda>u b. Inr r201)\<rparr>"
  have "fs file_name = Some (Regular fl)" and "read_fault fl = None"
    by (simp_all add: fs_def fl_def)
  from build_body_req_data_healthy [of fs fl, OF this]
  obtain b where b: "build_body fs (field_list req_data) = Inr b"
    by blast
  have s: "status r400 = 400" "status r201 = 201" "body_text r400 = ''bad request''"
    by (simp_all add: r400_def r201_def)
  have c: "connects s400 url" "respond s400 url b = Inr r400"
    "connects s201 url" "respond s201 url b = Inr r201"
    by (simp_all add: s400_def s201_def)
  note t400 = validate_status [of r400 201 s400 fs b]
  note t201 = validate_status [of r201 201 s201 fs b]
  from t400 s have 1: "validate r400 201 = Inl AssertionError" by simp
  from t201 s have 2: "validate r201 201 = Inr ()" by simp
  from t400 b c s have 3: "outcome (req fs s400) = Inl AssertionError" by simp
  from t201 b c s have 4: "outcome (req fs s201) = Inr ()" by simp
  from t400 b c s have 5: "trace (req fs s400)
      = [Connected url, Posted url b, Printed ''bad request'', Asserted False]" by simp
  from s 1 2 b 3 4 5
  have "status r400 \<noteq> 201 \<and> validate r400 201 = Inl AssertionError \<and>
     validate r201 201 = Inr () \<and>
     (\<exists>b. build_body fs (field_list req_data) = Inr b \<and>
        outcome (req fs s400) = Inl AssertionError \<and>
        outcome (req fs s201) = Inr () \<and>
        trace (req fs s400)
          = [Connected url, Posted url b, Printed ''bad request'', Asserted False])"
    by (intro conjI exI [of _ b]) simp_all
  then show ?thesis
    unfolding fs_def fl_def s400_def s201_def r400_def r201_def .
qed




text \<open>
  C9. In every run of \<open>req\<close> that receives a response, the body text of the response
  is printed and only then is the status assertion evaluated; the text is printed
  also when the assertion then fails. In no run is the assertion evaluated without
  the text having been printed before it.
\<close>

theorem body_printed_before_assertion:
  "(connects srv url \<and> build_body fs (field_list req_data) = Inr b \<and>
    respond srv url b = Inr resp \<longrightarrow>
      trace (req fs srv) = [Connected url, Posted url b, Printed (body_text resp),
                            Asserted (201 = status resp)] \<and>
      (status resp \<noteq> 201 \<longrightarrow>
         outcome (req fs srv) = Inl AssertionError \<and>
         Printed (body_text resp) \<in> set (trace (req fs srv)))) \<and>
   (\<forall>i ok. i < length (trace (req fs srv)) \<and> trace (req fs srv) ! i = Asserted ok \<longrightarrow>
      (\<exists>j t. j < i \<and> trace (req fs srv) ! j = Printed t))"
proof (intro conjI impI allI)
  assume a: "connects srv url \<and> build_body fs (field_list req_data) = Inr b \<and>
    respond srv url b = Inr resp"
  then have r: "req fs srv =
     \<lparr>trace = [Connected url, Posted url b, Printed (body_text resp),
               Asserted (201 = status resp)],
      outcome = validate resp 201\<rparr>"
    by (simp add: req_answered)
  then show "trace (req fs srv) = [Connected url, Posted url b, Printed (body_text resp),
                            Asserted (201 = status resp)]"
    by simp
  {
    assume "status resp \<noteq> 201"
    with r show "outcome (req fs srv) = Inl AssertionError"
      by (auto simp: validate_def)
    from r show "Printed (body_text resp) \<in> set (trace (req fs srv))"
      by simp
  }
next
  fix i ok
  assume a: "i < length (trace (req fs srv)) \<and> trace (req fs srv) ! i = Asserted ok"
  from req_trace_cases [of fs srv] consider
    "trace (req fs srv) = []"
    | "trace (req fs srv) = [Connected url]"
    | b where "trace (req fs srv) = [Connected url, Posted url b]"
    | b t ok' where "trace (req fs srv) = [Connected url, Posted url b, Printed t, Asserted ok']"
    by blast
  then show "\<exists>j t. j < i \<and> trace (req fs srv) ! j = Printed t"
  proof cases
    case 1
    with a show ?thesis by simp
  next
    case 2
    with a show ?thesis by auto
  next
    case 3
    with a have "i = 0 \<or> i = 1"
      by auto
    with a 3 show ?thesis by auto
  next
    case 4
    with a have "i = 3"
      by (cases i) (auto simp: nth_Cons split: nat.splits)
    with 4 have "2 < i \<and> trace (req fs srv) ! 2 = Printed t"
      by simp
    then show ?thesis by blast
  qed
qed

theorem body_printed_before_assertion_witness:
  "\<exists>b. build_body [file_name \<mapsto> Regular \<lparr>content = [1, 2, 3], read_fault = None\<rparr>]
          (field_list req_data) = Inr b \<and>
       connects \<lparr>connects = (\<lambda>u. True),
                 respond = (\<lambda>u b. Inr \<lparr>status = 400, body_text = ''no boundary''\<rparr>)\<rparr> url \<and>
       respond \<lparr>connects = (\<lambda>u. True),
                respond = (\<lambda>u b. Inr \<lparr>status = 400, body_text = ''no boundary''\<rparr>)\<rparr> url b
          = Inr \<lparr>status = 400, body_text = ''no boundary''\<rparr> \<and>
       status \<lparr>status = 400, body_text = ''no boundary''\<rparr> \<noteq> 201 \<and>
       trace (req [file_name \<mapsto> Regular \<lparr>content = [1, 2, 3], read_fault = None\<rparr>]
                \<lparr>connects = (\<lambda>u. True),
                 respond = (\<lambda>u b. Inr \<lparr>status = 400, body_text = ''no boundary''\<rparr>)\<rparr>)
          = [Connected url, Posted url b, Printed ''no boundary'', Asserted False] \<and>
       outcome (req [file_name \<mapsto> Regular \<lparr>content = [1, 2, 3], read_fault = None\<rparr>]
                \<lparr>connects = (\<lambda>u. True),
                 respond = (\<lambda>u b. Inr \<lparr>status = 400, body_text = ''no boundary''\<rparr>)\<rparr>)
          = Inl AssertionError"
proof -
  define fl :: local_file where "fl = \<lparr>content = [1, 2, 3], read_fault = None\<rparr>"
  define fs :: filesystem where "fs = [file_name \<mapsto> Regular fl]"
  define r400 where "r400 = \<lparr>status = 400, body_text = ''no boundary''\<rparr>"
  define srv :: server
    where "srv = \<lparr>connects = (\<lambda>u. True), respond = (\<lambda>u b. Inr r400)\<rparr>"
  have "fs file_name = Some (Regular fl)" and "read_fault fl = None"
    by (simp_all add: fs_def fl_def)
  from build_body_req_data_healthy [of fs fl, OF this]
  obtain b where b: "build_body fs (field_list req_data) = Inr b"
    by blast
  have s: "connects srv url" "respond srv url b = Inr r400" "status r400 = 400"
    "body_text r400 = ''no boundary''"
    by (simp_all add: srv_def r400_def)
  note t = body_printed_before_assertion [of srv fs b r400]
  from t b s have 1: "trace (req fs srv)
      = [Connected url, Posted url b, Printed ''no boundary'', Asserted False]"
    by simp
  from t b s have 2: "outcome (req fs srv) = Inl AssertionError"
    by simp
  from b s 1 2
  have "\<exists>b. build_body fs (field_list req_data) = Inr b \<and> connects srv url \<and>
       respond srv url b = Inr r400 \<and> status r400 \<noteq> 201 \<and>
       trace (req fs srv)
         = [Connected url, Posted url b, Printed ''no boundary'', Asserted False] \<and>
       outcome (req fs srv) = Inl AssertionError"
    by (intro conjI exI [of _ b]) simp_all
  then show ?thesis
    unfolding fs_def fl_def srv_def r400_def .
qed


end
